theory Spec2Isabelle
  imports Main
begin

section \<open>Runtime values\<close>

text \<open>
  The values that \<^verbatim>\<open>typeit\<close> inspects. Numbers are the integer-valued ones (those
  that are printed in plain decimal, where their rendering matters), a
  function and a regular expression carry their source text, a plain object is the list
  of its own enumerable properties in the order \<^verbatim>\<open>Object.values\<close> reports them.
  A value of this type is a finite tree: the traversal functions are modelled on
  structures without cycles.
\<close>

datatype jsval =
    Undefined
  | Null
  | Bool bool
  | Num int
  | Str string
  | BigInt int
  | Symbol string
  | Function string
  | RegExp string
  | Arr "jsval list"
  | Obj "(string \<times> jsval) list"

datatype error = TypeError string | RangeError string

text \<open>The \<^verbatim>\<open>typeof\<close> operator.\<close>

fun typeof :: "jsval \<Rightarrow> string" where
  "typeof Undefined = ''undefined''"
| "typeof Null = ''object''"
| "typeof (Bool b) = ''boolean''"
| "typeof (Num n) = ''number''"
| "typeof (Str s) = ''string''"
| "typeof (BigInt n) = ''bigint''"
| "typeof (Symbol d) = ''symbol''"
| "typeof (Function src) = ''function''"
| "typeof (RegExp src) = ''object''"
| "typeof (Arr xs) = ''object''"
| "typeof (Obj kvs) = ''object''"

text \<open>\<^verbatim>\<open>Array.isArray\<close>, the spread of an array into arguments, and \<^verbatim>\<open>Object.values\<close>
  (a regular expression has no enumerable property of its own).\<close>

fun isArray :: "jsval \<Rightarrow> bool" where
  "isArray (Arr xs) = True"
| "isArray v = False"

fun spread :: "jsval \<Rightarrow> jsval list" where
  "spread (Arr xs) = xs"
| "spread v = []"

fun Object_values :: "jsval \<Rightarrow> jsval list" where
  "Object_values (Obj kvs) = map snd kvs"
| "Object_values (Arr xs) = xs"
| "Object_values v = []"

section \<open>Traversal\<close>

text \<open>
  The second argument of \<^verbatim>\<open>bfsTraversal\<close> and \<^verbatim>\<open>dfsTraversal\<close> is an object whose
  properties are testers. A tester returns a truth value or throws; calling a property
  that the object does not have throws a \<^verbatim>\<open>TypeError\<close>.
\<close>

type_synonym predicate = "jsval \<Rightarrow> error + bool"
type_synonym typeEnum = "string \<rightharpoonup> predicate"

definition call_method :: "typeEnum \<Rightarrow> string \<Rightarrow> jsval \<Rightarrow> error + bool" where
  "call_method typeEnum name item =
     (case typeEnum name of
        None \<Rightarrow> Inl (TypeError (''typeEnum.'' @ name @ '' is not a function''))
      | Some p \<Rightarrow> p item)"

text \<open>
  The \<^verbatim>\<open>if\<close>/\<^verbatim>\<open>else if\<close> chain of the scalar branch: \<^verbatim>\<open>isString\<close>, \<^verbatim>\<open>isNumber\<close>,
  \<^verbatim>\<open>isBoolean\<close>, \<^verbatim>\<open>isRegExp\<close>, in this order, stopping at the first tester that
  accepts. The result says whether the item is pushed onto \<^verbatim>\<open>result\<close>.
\<close>

definition leaf_test :: "typeEnum \<Rightarrow> jsval \<Rightarrow> error + bool" where
  "leaf_test typeEnum item =
     (case call_method typeEnum ''isString'' item of
        Inl e \<Rightarrow> Inl e
      | Inr True \<Rightarrow> Inr True
      | Inr False \<Rightarrow>
     (case call_method typeEnum ''isNumber'' item of
        Inl e \<Rightarrow> Inl e
      | Inr True \<Rightarrow> Inr True
      | Inr False \<Rightarrow>
     (case call_method typeEnum ''isBoolean'' item of
        Inl e \<Rightarrow> Inl e
      | Inr True \<Rightarrow> Inr True
      | Inr False \<Rightarrow>
     (case call_method typeEnum ''isRegExp'' item of
        Inl e \<Rightarrow> Inl e
      | Inr b \<Rightarrow> Inr b))))"

text \<open>
  The \<^verbatim>\<open>while\<close> loop of \<^verbatim>\<open>bfsTraversal\<close>: \<^verbatim>\<open>queue.shift()\<close> takes the head,
  \<^verbatim>\<open>queue.push(...)\<close> appends at the back.
\<close>

function bfs_loop :: "typeEnum \<Rightarrow> jsval list \<Rightarrow> jsval list \<Rightarrow> error + jsval list" where
  "bfs_loop typeEnum [] result = Inr result"
| "bfs_loop typeEnum (item # queue) result =
     (if isArray item then bfs_loop typeEnum (queue @ spread item) result
      else if typeof item = ''object'' \<and> item \<noteq> Null
        then bfs_loop typeEnum (queue @ Object_values item) result
      else (case leaf_test typeEnum item of
              Inl e \<Rightarrow> Inl e
            | Inr push \<Rightarrow> bfs_loop typeEnum queue (if push then result @ [item] else result)))"
  by pat_completeness auto
termination
proof (relation "measure (\<lambda>(typeEnum, queue, result). size_list size queue)")
  have snd_le: "size_list size (map snd kvs) \<le> size_list (size_prod (\<lambda>_. 0) size) kvs"
    for kvs :: "(string \<times> jsval) list"
    by (induction kvs) auto
  have children: "size_list size (spread item) \<le> size item"
    "size_list size (Object_values item) \<le> size item" for item
    using snd_le by (cases item; simp add: le_SucI)+
  show "wf (measure (\<lambda>(typeEnum, queue, result). size_list size queue))" by simp
  fix typeEnum :: typeEnum and item queue and result :: "jsval list"
  show "((typeEnum, queue @ spread item, result), (typeEnum, item # queue, result))
      \<in> measure (\<lambda>(typeEnum, queue, result). size_list size queue)"
    using children(1) [of item] by simp
  show "((typeEnum, queue @ Object_values item, result), (typeEnum, item # queue, result))
      \<in> measure (\<lambda>(typeEnum, queue, result). size_list size queue)"
    using children(2) [of item] by simp
  fix push :: bool
  show "((typeEnum, queue, if push then result @ [item] else result), (typeEnum, item # queue, result))
      \<in> measure (\<lambda>(typeEnum, queue, result). size_list size queue)"
    by simp
qed

definition bfsTraversal :: "jsval \<Rightarrow> typeEnum \<Rightarrow> error + jsval list" where
  "bfsTraversal obj typeEnum = bfs_loop typeEnum [obj] []"

text \<open>
  The \<^verbatim>\<open>while\<close> loop of \<^verbatim>\<open>dfsTraversal\<close>. The stack is the array itself:
  \<^verbatim>\<open>stack.pop()\<close> takes the last element and \<^verbatim>\<open>stack.push(...)\<close> appends after it.
\<close>

function dfs_loop :: "typeEnum \<Rightarrow> jsval list \<Rightarrow> jsval list \<Rightarrow> error + jsval list" where
  "dfs_loop typeEnum stack result =
     (if stack = [] then Inr result
      else
        let item = last stack; stack = butlast stack in
        if isArray item then dfs_loop typeEnum (stack @ spread item) result
        else if typeof item = ''object'' \<and> item \<noteq> Null
          then dfs_loop typeEnum (stack @ Object_values item) result
        else (case leaf_test typeEnum item of
                Inl e \<Rightarrow> Inl e
              | Inr push \<Rightarrow> dfs_loop typeEnum stack (if push then result @ [item] else result)))"
  by pat_completeness auto
termination
proof (relation "measure (\<lambda>(typeEnum, stack, result). size_list size stack)")
  have snd_le: "size_list size (map snd kvs) \<le> size_list (size_prod (\<lambda>_. 0) size) kvs"
    for kvs :: "(string \<times> jsval) list"
    by (induction kvs) auto
  have children: "size_list size (spread item) \<le> size item"
    "size_list size (Object_values item) \<le> size item" for item
    using snd_le by (cases item; simp add: le_SucI)+
  show "wf (measure (\<lambda>(typeEnum, stack, result). size_list size stack))" by simp
  fix typeEnum :: typeEnum and stack result :: "jsval list" and item stack'
  assume ne: "stack \<noteq> []" and item: "item = last stack" and rest: "stack' = butlast stack"
  from ne have "stack = stack' @ [item]" by (simp add: item rest)
  then have sz: "size_list size stack = size_list size stack' + Suc (size item)" by simp
  show "((typeEnum, stack' @ spread item, result), (typeEnum, stack, result))
      \<in> measure (\<lambda>(typeEnum, stack, result). size_list size stack)"
    using children(1) [of item] sz by simp
  show "((typeEnum, stack' @ Object_values item, result), (typeEnum, stack, result))
      \<in> measure (\<lambda>(typeEnum, stack, result). size_list size stack)"
    using children(2) [of item] sz by simp
  fix push :: bool
  show "((typeEnum, stack', if push then result @ [item] else result), (typeEnum, stack, result))
      \<in> measure (\<lambda>(typeEnum, stack, result). size_list size stack)"
    using sz by simp
qed

declare dfs_loop.simps [simp del]

definition dfsTraversal :: "jsval \<Rightarrow> typeEnum \<Rightarrow> error + jsval list" where
  "dfsTraversal obj typeEnum = dfs_loop typeEnum [obj] []"

text \<open>
  The four property names the two loops call, and the sets on which no call can throw:
  each of the four is present and answers on every value.
\<close>

definition engine_names :: "string list" where
  "engine_names = [''isString'', ''isNumber'', ''isBoolean'', ''isRegExp'']"

definition testers_total :: "typeEnum \<Rightarrow> bool" where
  "testers_total typeEnum \<longleftrightarrow>
     (\<forall>name \<in> set engine_names. \<exists>p. typeEnum name = Some p \<and> (\<forall>item. \<exists>b. p item = Inr b))"

subsection \<open>Predicate sets used as inputs\<close>

text \<open>
  The repository ships no predicate set; these are sets a caller can pass.
  \<open>typeofTesters\<close> has the four testers written with \<^verbatim>\<open>typeof\<close>,
  \<open>numberTesters\<close> has the four with only \<^verbatim>\<open>isNumber\<close> accepting anything,
  \<open>numberOnly\<close> has the single property \<^verbatim>\<open>isNumber\<close>, \<open>emailTesters\<close> is
  \<open>numberTesters\<close> with one more property, \<^verbatim>\<open>isEmail\<close>, that accepts the string
  \<^verbatim>\<open>a@b.co\<close>, and \<open>throwingTesters\<close> is \<open>numberTesters\<close> with an \<^verbatim>\<open>isNumber\<close>
  that throws.
\<close>

definition typeofTesters :: typeEnum where
  "typeofTesters =
     [''isString'' \<mapsto> (\<lambda>v. Inr (typeof v = ''string'')),
      ''isNumber'' \<mapsto> (\<lambda>v. Inr (typeof v = ''number'')),
      ''isBoolean'' \<mapsto> (\<lambda>v. Inr (typeof v = ''boolean'')),
      ''isRegExp'' \<mapsto> (\<lambda>v. Inr (case v of RegExp src \<Rightarrow> True | _ \<Rightarrow> False))]"

definition numberTesters :: typeEnum where
  "numberTesters =
     [''isString'' \<mapsto> (\<lambda>v. Inr False),
      ''isNumber'' \<mapsto> (\<lambda>v. Inr (typeof v = ''number'')),
      ''isBoolean'' \<mapsto> (\<lambda>v. Inr False),
      ''isRegExp'' \<mapsto> (\<lambda>v. Inr False)]"

definition numberOnly :: typeEnum where
  "numberOnly = [''isNumber'' \<mapsto> (\<lambda>v. Inr (typeof v = ''number''))]"



section \<open>The container \<^verbatim>\<open>TypeGuard\<close>\<close>

text \<open>
  Arrays are objects with identity: the container keeps a reference to one, and so may
  its caller. The heap maps an address to the current elements of the array there;
  \<open>next_addr\<close> is the first address not yet handed out. The arrays are ordinary ones
  (not frozen or sealed), so the array methods used below do not throw.
\<close>

type_synonym addr = nat

record heap =
  cells :: "addr \<Rightarrow> jsval list"
  next_addr :: addr

definition emptyHeap :: heap where
  "emptyHeap = \<lparr>cells = (\<lambda>a. []), next_addr = 0\<rparr>"

definition alloc :: "heap \<Rightarrow> jsval list \<Rightarrow> addr \<times> heap" where
  "alloc h xs =
     (next_addr h, h\<lparr>cells := (cells h)(next_addr h := xs), next_addr := Suc (next_addr h)\<rparr>)"

definition write_array :: "heap \<Rightarrow> addr \<Rightarrow> jsval list \<Rightarrow> heap" where
  "write_array h a xs = h\<lparr>cells := (cells h)(a := xs)\<rparr>"

record TypeGuard =
  data :: addr

text \<open>
  What a caller hands to the constructor: a reference to an array it holds, or a value
  written in place. An array written in place (\<^verbatim>\<open>new TypeGuard([10, 20, 30])\<close>) is a new
  array that only the container refers to.
\<close>

datatype operand = Ref addr | Imm jsval

fun isArrayLike :: "operand \<Rightarrow> bool" where
  "isArrayLike (Ref a) = True"
| "isArrayLike (Imm v) = isArray v"

text \<open>
  The constructor: the default \<^verbatim>\<open>[]\<close> replaces a missing or undefined argument, the
  check throws on anything that is not an array, and \<^verbatim>\<open>this.data\<close> becomes the very
  array that was passed.
\<close>

definition "constructor" :: "heap \<Rightarrow> operand \<Rightarrow> (error + TypeGuard) \<times> heap" where
  "constructor h arg =
     (let (initialValues, h1) =
            (if arg = Imm Undefined then (let (a, h') = alloc h [] in (Ref a, h')) else (arg, h))
      in if \<not> isArrayLike initialValues
           then (Inl (TypeError ''Initial values must be an array-like structure''), h1)
         else (case initialValues of
                 Ref a \<Rightarrow> (Inr \<lparr>data = a\<rparr>, h1)
               | Imm v \<Rightarrow> (let (a, h2) = alloc h1 (spread v) in (Inr \<lparr>data = a\<rparr>, h2))))"

definition typeGuard :: "jsval \<Rightarrow> string \<Rightarrow> error + unit" where
  "typeGuard v expectedType =
     (if typeof v \<noteq> expectedType
        then Inl (TypeError (''Expected type '' @ expectedType @ '', but received '' @ typeof v))
      else Inr ())"

definition push :: "heap \<Rightarrow> TypeGuard \<Rightarrow> jsval \<Rightarrow> (error + TypeGuard) \<times> heap" where
  "push h tg element =
     (case typeGuard element ''number'' of
        Inl e \<Rightarrow> (Inl e, h)
      | Inr _ \<Rightarrow> (Inr tg, write_array h (data tg) (cells h (data tg) @ [element])))"

text \<open>\<^verbatim>\<open>Array.prototype.pop\<close> on an empty array returns \<^verbatim>\<open>undefined\<close>.\<close>

definition pop :: "heap \<Rightarrow> TypeGuard \<Rightarrow> (error + jsval) \<times> heap" where
  "pop h tg =
     (let xs = cells h (data tg)
      in if xs = [] then (Inr Undefined, h)
         else (Inr (last xs), write_array h (data tg) (butlast xs)))"

text \<open>
  The index argument of \<^verbatim>\<open>insertAt\<close> and \<^verbatim>\<open>removeAt\<close>: \<open>Index i\<close> is the integer-valued
  number \<open>i\<close>, \<open>NaN\<close> is the number of that name, and \<open>Missing\<close> is \<^verbatim>\<open>undefined\<close>, the
  value of the parameter in a call that leaves the argument out. Fractions, infinities
  and arguments that are not numbers otherwise (strings, objects) are not modelled.
  The guards compare the argument as a number; \<open>None\<close> is the outcome NaN of that
  conversion.
\<close>

datatype index = Index int | NaN | Missing

fun ToNumber :: "index \<Rightarrow> int option" where
  "ToNumber (Index i) = Some i"
| "ToNumber NaN = None"
| "ToNumber Missing = None"

text \<open>
  The comparison underlying \<^verbatim>\<open><\<close>, \<^verbatim>\<open>>\<close> and \<^verbatim>\<open>>=\<close>: it is undefined (\<open>None\<close>) when an
  operand is NaN. \<^verbatim>\<open>a < b\<close> holds when \<open>IsLessThan a b\<close> is true, \<^verbatim>\<open>a > b\<close> when
  \<open>IsLessThan b a\<close> is true, and \<^verbatim>\<open>a >= b\<close> when \<open>IsLessThan a b\<close> is false.
\<close>

definition IsLessThan :: "int option \<Rightarrow> int option \<Rightarrow> bool option" where
  "IsLessThan x y = (case (x, y) of (Some a, Some b) \<Rightarrow> Some (a < b) | _ \<Rightarrow> None)"

text \<open>
  \<^verbatim>\<open>Array.prototype.splice(start, deleteCount, ...items)\<close>: NaN as start is 0, a negative
  start counts from the end, and both start and the number of deleted elements are
  clamped to the array. The result is the array of removed elements and the new contents.
\<close>

definition splice_start :: "int option \<Rightarrow> nat \<Rightarrow> nat" where
  "splice_start start len =
     (let relativeStart = (case start of None \<Rightarrow> 0 | Some i \<Rightarrow> i)
      in if relativeStart < 0 then nat (max (int len + relativeStart) 0)
         else nat (min relativeStart (int len)))"

definition splice :: "jsval list \<Rightarrow> int option \<Rightarrow> nat \<Rightarrow> jsval list \<Rightarrow> jsval list \<times> jsval list" where
  "splice xs start deleteCount items =
     (let k = splice_start start (length xs);
          dc = min deleteCount (length xs - k)
      in (take dc (drop k xs), take k xs @ items @ drop (k + dc) xs))"

definition insertAt :: "heap \<Rightarrow> TypeGuard \<Rightarrow> index \<Rightarrow> jsval \<Rightarrow> (error + TypeGuard) \<times> heap" where
  "insertAt h tg index element =
     (let xs = cells h (data tg); n = ToNumber index
      in if IsLessThan n (Some 0) = Some True \<or> IsLessThan (Some (int (length xs))) n = Some True
           then (Inl (RangeError ''Index out of bounds''), h)
         else (case typeGuard element ''number'' of
                 Inl e \<Rightarrow> (Inl e, h)
               | Inr _ \<Rightarrow>
                   (Inr tg, write_array h (data tg) (snd (splice xs n 0 [element])))))"

text \<open>\<^verbatim>\<open>splice(index, 1)[0]\<close> is \<^verbatim>\<open>undefined\<close> when nothing was removed.\<close>

definition removeAt :: "heap \<Rightarrow> TypeGuard \<Rightarrow> index \<Rightarrow> (error + jsval) \<times> heap" where
  "removeAt h tg index =
     (let xs = cells h (data tg); n = ToNumber index
      in if IsLessThan n (Some 0) = Some True \<or> IsLessThan n (Some (int (length xs))) = Some False
           then (Inl (RangeError ''Index out of bounds''), h)
         else (let (removed, ys) = splice xs n 1 []
               in (Inr (case removed of [] \<Rightarrow> Undefined | v # _ \<Rightarrow> v),
                   write_array h (data tg) ys)))"

text \<open>\<^verbatim>\<open>this.data[index]\<close>, for an integer index.\<close>

definition at :: "heap \<Rightarrow> TypeGuard \<Rightarrow> int \<Rightarrow> jsval" where
  "at h tg index =
     (let xs = cells h (data tg)
      in if 0 \<le> index \<and> index < int (length xs) then xs ! nat index else Undefined)"

definition length_tg :: "heap \<Rightarrow> TypeGuard \<Rightarrow> nat" where
  "length_tg h tg = length (cells h (data tg))"

text \<open>\<^verbatim>\<open>[...this.data]\<close> is a new array with the same elements.\<close>

definition clone :: "heap \<Rightarrow> TypeGuard \<Rightarrow> (error + TypeGuard) \<times> heap" where
  "clone h tg = (let (a, h') = alloc h (cells h (data tg)) in constructor h' (Ref a))"

subsection \<open>Rendering\<close>

text \<open>
  \<^verbatim>\<open>Array.prototype.join\<close> writes \<^verbatim>\<open>undefined\<close> and \<^verbatim>\<open>null\<close> as the empty string and
  every other element by the language's string conversion, which throws on a symbol,
  joins a nested array with commas and writes a plain object as \<^verbatim>\<open>[object Object]\<close>.
  A number is written in plain decimal, which is what the language does for an integer
  of magnitude below \<open>10\<^sup>2\<^sup>1\<close>; from there on it writes an exponent, and \<open>show_int\<close>
  is not the rendering of such a number.
\<close>

definition digit_char :: "nat \<Rightarrow> char" where
  "digit_char d = ''0123456789'' ! d"

function show_nat :: "nat \<Rightarrow> string" where
  "show_nat n = (if n < 10 then [digit_char n] else show_nat (n div 10) @ [digit_char (n mod 10)])"
  by pat_completeness auto
termination
  by (relation "measure id") auto

declare show_nat.simps [simp del]

definition show_int :: "int \<Rightarrow> string" where
  "show_int i = (if i < 0 then CHR ''-'' # show_nat (nat (- i)) else show_nat (nat i))"

fun ToString :: "jsval \<Rightarrow> error + string"
  and join_with :: "string \<Rightarrow> jsval list \<Rightarrow> error + string"
where
  "ToString Undefined = Inr ''undefined''"
| "ToString Null = Inr ''null''"
| "ToString (Bool b) = Inr (if b then ''true'' else ''false'')"
| "ToString (Num n) = Inr (show_int n)"
| "ToString (Str s) = Inr s"
| "ToString (BigInt n) = Inr (show_int n)"
| "ToString (Symbol d) = Inl (TypeError ''Cannot convert a Symbol value to a string'')"
| "ToString (Function src) = Inr src"
| "ToString (RegExp src) = Inr src"
| "ToString (Arr xs) = join_with '','' xs"
| "ToString (Obj kvs) = Inr ''[object Object]''"
| "join_with sep [] = Inr []"
| "join_with sep (x # xs) =
     (case (if x = Undefined \<or> x = Null then Inr [] else ToString x) of
        Inl e \<Rightarrow> Inl e
      | Inr s \<Rightarrow>
          if xs = [] then Inr s
          else (case join_with sep xs of
                  Inl e \<Rightarrow> Inl e
                | Inr t \<Rightarrow> Inr (s @ sep @ t)))"

definition toString :: "heap \<Rightarrow> TypeGuard \<Rightarrow> error + string" where
  "toString h tg =
     (case join_with '', '' (cells h (data tg)) of
        Inl e \<Rightarrow> Inl e
      | Inr s \<Rightarrow> Inr (''['' @ s @ '']''))"

subsection \<open>Sequences of mutating calls\<close>

text \<open>
  A caller's sequence of mutating calls on one container, each call made whether or not
  an earlier one threw.
\<close>

datatype mutation = Push jsval | Pop | InsertAt index jsval | RemoveAt index

fun mutate :: "heap \<Rightarrow> TypeGuard \<Rightarrow> mutation \<Rightarrow> heap" where
  "mutate h tg (Push element) = snd (push h tg element)"
| "mutate h tg Pop = snd (pop h tg)"
| "mutate h tg (InsertAt index element) = snd (insertAt h tg index element)"
| "mutate h tg (RemoveAt index) = snd (removeAt h tg index)"

definition mutations :: "heap \<Rightarrow> TypeGuard \<Rightarrow> mutation list \<Rightarrow> heap" where
  "mutations h tg ms = foldl (\<lambda>h' m. mutate h' tg m) h ms"

text \<open>The heap after \<^verbatim>\<open>const a = [10, 20, 30]\<close>: the array is at address 0.\<close>

definition heap123 :: heap where
  "heap123 = snd (alloc emptyHeap [Num 10, Num 20, Num 30])"

section \<open>Properties of the traversal\<close>

subsection \<open>What the loops depend on\<close>




subsection \<open>Every element of the result was accepted\<close>

lemma bfs_loop_accepted:
  "bfs_loop te queue result = Inr res \<Longrightarrow> v \<in> set res \<Longrightarrow>
     v \<in> set result \<or> leaf_test te v = Inr True"
proof (induction te queue result rule: bfs_loop.induct)
  case (1 typeEnum result)
  then show ?case by simp
next
  case (2 typeEnum item queue result)
  show ?case
  proof (cases "leaf_test typeEnum item")
    case (Inl e)
    with 2 show ?thesis by (simp split: if_splits)
  next
    case (Inr b)
    with 2 show ?thesis by (cases b) (auto split: if_splits)
  qed
qed

lemma dfs_loop_accepted:
  "dfs_loop te stack result = Inr res \<Longrightarrow> v \<in> set res \<Longrightarrow>
     v \<in> set result \<or> leaf_test te v = Inr True"
proof (induction te stack result rule: dfs_loop.induct)
  case (1 typeEnum stack result)
  from "1.prems"(1) have run:
    "(if stack = [] then Inr result
      else
        let item = last stack; stack = butlast stack in
        if isArray item then dfs_loop typeEnum (stack @ spread item) result
        else if typeof item = ''object'' \<and> item \<noteq> Null
          then dfs_loop typeEnum (stack @ Object_values item) result
        else (case leaf_test typeEnum item of
                Inl e \<Rightarrow> Inl e
              | Inr p \<Rightarrow>
                  dfs_loop typeEnum stack (if p then result @ [item] else result))) = Inr res"
    by (subst (asm) dfs_loop.simps)
  show ?case
  proof (cases "leaf_test typeEnum (last stack)")
    case (Inl e)
    with 1 run show ?thesis by (simp add: Let_def split: if_splits)
  next
    case (Inr b)
    with 1 run show ?thesis by (cases b) (auto simp: Let_def split: if_splits)
  qed
qed

subsection \<open>No error when the four testers answer\<close>

lemma testers_total_leaf_test:
  assumes "testers_total te"
  shows "\<exists>b. leaf_test te item = Inr b"
proof -
  have "\<exists>b. call_method te name item = Inr b" if "name \<in> set engine_names" for name
    using assms that by (fastforce simp: testers_total_def call_method_def)
  then obtain b1 b2 b3 b4 where "call_method te ''isString'' item = Inr b1"
    and "call_method te ''isNumber'' item = Inr b2"
    and "call_method te ''isBoolean'' item = Inr b3"
    and "call_method te ''isRegExp'' item = Inr b4"
    unfolding engine_names_def by (metis list.set_intros)
  then show ?thesis
    unfolding leaf_test_def by (cases b1; cases b2; cases b3) auto
qed

lemma bfs_loop_total:
  "(\<And>item. \<exists>b. leaf_test te item = Inr b) \<Longrightarrow> \<exists>res. bfs_loop te queue result = Inr res"
proof (induction te queue result rule: bfs_loop.induct)
  case (1 typeEnum result)
  show ?case by simp
next
  case (2 typeEnum item queue result)
  from "2.prems" obtain b where "leaf_test typeEnum item = Inr b" by blast
  with 2 show ?case by simp
qed

lemma dfs_loop_total:
  "(\<And>item. \<exists>b. leaf_test te item = Inr b) \<Longrightarrow> \<exists>res. dfs_loop te stack result = Inr res"
proof (induction te stack result rule: dfs_loop.induct)
  case (1 typeEnum stack result)
  from "1.prems" obtain b where "leaf_test typeEnum (last stack) = Inr b" by blast
  with 1 show ?case
    by (subst dfs_loop.simps) (simp add: Let_def)
qed

lemma testers_total_numberTesters: "testers_total numberTesters"
  by (auto simp: testers_total_def engine_names_def numberTesters_def)

lemma leaf_test_numberTesters: "leaf_test numberTesters v = Inr (typeof v = ''number'')"
  by (cases "typeof v = ''number''") (simp_all add: leaf_test_def call_method_def numberTesters_def)

lemma leaf_test_typeofTesters_Num: "leaf_test typeofTesters (Num n) = Inr True"
  by (simp add: leaf_test_def call_method_def typeofTesters_def)

subsection \<open>Order of the result\<close>

text \<open>
  C5. For the root \<^verbatim>\<open>[[1,2],[3,4]]\<close> and a predicate set whose testers accept numbers,
  \<^verbatim>\<open>bfsTraversal\<close> returns \<^verbatim>\<open>[1,2,3,4]\<close>: the leaves in first-in-first-out order of
  visit, the children of each array enqueued in their original order.
\<close>

theorem bfsTraversal_order:
  assumes "\<forall>n. leaf_test typeEnum (Num n) = Inr True"
  shows "bfsTraversal (Arr [Arr [Num 1, Num 2], Arr [Num 3, Num 4]]) typeEnum
           = Inr [Num 1, Num 2, Num 3, Num 4]"
  using assms by (simp add: bfsTraversal_def)

theorem bfsTraversal_order_witness:
  "(\<forall>n. leaf_test typeofTesters (Num n) = Inr True) \<and>
   bfsTraversal (Arr [Arr [Num 1, Num 2], Arr [Num 3, Num 4]]) typeofTesters
     = Inr [Num 1, Num 2, Num 3, Num 4]"
  using bfsTraversal_order [of typeofTesters] by (simp add: leaf_test_typeofTesters_Num)

text \<open>
  C1, as stated: for the same root, \<^verbatim>\<open>dfsTraversal\<close> returns \<^verbatim>\<open>[3,4,1,2]\<close>. It does
  not: the two numbers of an array are popped last-first as well.
\<close>

theorem dfsTraversal_order_counterexample:
  "dfsTraversal (Arr [Arr [Num 1, Num 2], Arr [Num 3, Num 4]]) typeofTesters
     \<noteq> Inr [Num 3, Num 4, Num 1, Num 2]"
  by (simp add: dfsTraversal_def dfs_loop.simps leaf_test_typeofTesters_Num)

text \<open>
  C1, amended. For the root \<^verbatim>\<open>[[1,2],[3,4]]\<close> and a predicate set whose testers accept
  numbers, \<^verbatim>\<open>dfsTraversal\<close> returns \<^verbatim>\<open>[4,3,2,1]\<close>: children are pushed in their
  original order onto the stack, so at every array the rightmost child is visited first,
  a leaf as well as an array.
\<close>

theorem dfsTraversal_order:
  assumes "\<forall>n. leaf_test typeEnum (Num n) = Inr True"
  shows "dfsTraversal (Arr [Arr [Num 1, Num 2], Arr [Num 3, Num 4]]) typeEnum
           = Inr [Num 4, Num 3, Num 2, Num 1]"
  using assms by (simp add: dfsTraversal_def dfs_loop.simps)

theorem dfsTraversal_order_witness:
  "(\<forall>n. leaf_test typeofTesters (Num n) = Inr True) \<and>
   dfsTraversal (Arr [Arr [Num 1, Num 2], Arr [Num 3, Num 4]]) typeofTesters
     = Inr [Num 4, Num 3, Num 2, Num 1]"
  using dfsTraversal_order [of typeofTesters] by (simp add: leaf_test_typeofTesters_Num)

subsection \<open>Which testers are consulted\<close>




subsection \<open>Leaves that no tester accepts\<close>

text \<open>
  C3, as stated: a leaf whose type has no entry in the predicate set is dropped without
  an error, and the root \<^verbatim>\<open>["a", true, {}]\<close> with a set that contains only a number
  tester gives the empty sequence. It does not: the set has no \<^verbatim>\<open>isString\<close>, and the
  call of it on the first leaf throws.
\<close>

theorem leaf_filtering_counterexample:
  "bfsTraversal (Arr [Str ''a'', Bool True, Obj []]) numberOnly
     = Inl (TypeError ''typeEnum.isString is not a function'') \<and>
   bfsTraversal (Arr [Str ''a'', Bool True, Obj []]) numberOnly \<noteq> Inr []"
  by (simp add: bfsTraversal_def numberOnly_def leaf_test_def call_method_def)

text \<open>
  C3, amended. A leaf that none of the four testers \<^verbatim>\<open>isString\<close>, \<^verbatim>\<open>isNumber\<close>,
  \<^verbatim>\<open>isBoolean\<close>, \<^verbatim>\<open>isRegExp\<close> accepts is never present in the result, and when the set
  has all four and none of them throws, the traversal raises no error and such a leaf is
  silently dropped: for the root \<^verbatim>\<open>["a", true, {}]\<close> and a set of this kind whose testers
  reject the string and the boolean, the traversal returns the empty sequence.
\<close>

theorem leaf_filtering:
  assumes "testers_total typeEnum"
  shows "(\<exists>res. bfsTraversal obj typeEnum = Inr res \<and>
                (\<forall>v. leaf_test typeEnum v \<noteq> Inr True \<longrightarrow> v \<notin> set res)) \<and>
         (\<exists>res. dfsTraversal obj typeEnum = Inr res \<and>
                (\<forall>v. leaf_test typeEnum v \<noteq> Inr True \<longrightarrow> v \<notin> set res)) \<and>
         (leaf_test typeEnum (Str ''a'') = Inr False \<and>
          leaf_test typeEnum (Bool True) = Inr False \<longrightarrow>
            bfsTraversal (Arr [Str ''a'', Bool True, Obj []]) typeEnum = Inr [] \<and>
            dfsTraversal (Arr [Str ''a'', Bool True, Obj []]) typeEnum = Inr [])"
proof -
  have answers: "\<exists>b. leaf_test typeEnum item = Inr b" for item
    using assms by (rule testers_total_leaf_test)
  obtain rb where rb: "bfsTraversal obj typeEnum = Inr rb"
    unfolding bfsTraversal_def using bfs_loop_total [of typeEnum "[obj]" "[]"] answers by blast
  obtain rd where rd: "dfsTraversal obj typeEnum = Inr rd"
    unfolding dfsTraversal_def using dfs_loop_total [of typeEnum "[obj]" "[]"] answers by blast
  have "leaf_test typeEnum v = Inr True" if "v \<in> set rb" for v
    using bfs_loop_accepted [of typeEnum "[obj]" "[]" rb v] rb that
    by (simp add: bfsTraversal_def)
  moreover have "leaf_test typeEnum v = Inr True" if "v \<in> set rd" for v
    using dfs_loop_accepted [of typeEnum "[obj]" "[]" rd v] rd that
    by (simp add: dfsTraversal_def)
  moreover have "leaf_test typeEnum (Str ''a'') = Inr False \<and>
          leaf_test typeEnum (Bool True) = Inr False \<longrightarrow>
            bfsTraversal (Arr [Str ''a'', Bool True, Obj []]) typeEnum = Inr [] \<and>
            dfsTraversal (Arr [Str ''a'', Bool True, Obj []]) typeEnum = Inr []"
    by (simp add: bfsTraversal_def dfsTraversal_def dfs_loop.simps)
  ultimately show ?thesis
    using rb rd by blast
qed

theorem leaf_filtering_witness:
  "testers_total numberTesters \<and>
   leaf_test numberTesters (Str ''a'') = Inr False \<and>
   leaf_test numberTesters (Bool True) = Inr False \<and>
   bfsTraversal (Arr [Str ''a'', Bool True, Obj []]) numberTesters = Inr [] \<and>
   dfsTraversal (Arr [Str ''a'', Bool True, Obj []]) numberTesters = Inr []"
  using leaf_filtering [of numberTesters "Arr [Str ''a'', Bool True, Obj []]"]
  by (simp add: testers_total_numberTesters leaf_test_numberTesters)

section \<open>Properties of the container\<close>

lemma heap123_eq:
  "heap123 = \<lparr>cells = (\<lambda>a. [])(0 := [Num 10, Num 20, Num 30]), next_addr = 1\<rparr>"
  by (simp add: heap123_def alloc_def emptyHeap_def)

lemma constructor_Ref: "constructor h (Ref a) = (Inr \<lparr>data = a\<rparr>, h)"
  by (simp add: constructor_def)

lemma clone_eq:
  "clone h tg =
     (Inr \<lparr>data = next_addr h\<rparr>,
      h\<lparr>cells := (cells h)(next_addr h := cells h (data tg)), next_addr := Suc (next_addr h)\<rparr>)"
  by (simp add: clone_def alloc_def constructor_def)

lemma push_number:
  "typeof element = ''number'' \<Longrightarrow>
     push h tg element = (Inr tg, write_array h (data tg) (cells h (data tg) @ [element]))"
  by (simp add: push_def typeGuard_def)

lemma push_other:
  "typeof element \<noteq> ''number'' \<Longrightarrow>
     push h tg element
       = (Inl (TypeError (''Expected type number, but received '' @ typeof element)), h)"
  by (simp add: push_def typeGuard_def)

lemma insertAt_Index:
  "insertAt h tg (Index i) element =
     (let xs = cells h (data tg)
      in if i < 0 \<or> i > int (length xs)
           then (Inl (RangeError ''Index out of bounds''), h)
         else (case typeGuard element ''number'' of
                 Inl e \<Rightarrow> (Inl e, h)
               | Inr _ \<Rightarrow>
                   (Inr tg, write_array h (data tg)
                              (take (nat i) xs @ element # drop (nat i) xs))))"
  by (auto simp: insertAt_def IsLessThan_def splice_def splice_start_def Let_def min_def
        split: sum.splits)

lemma removeAt_Index:
  "removeAt h tg (Index i) =
     (let xs = cells h (data tg)
      in if i < 0 \<or> i \<ge> int (length xs)
           then (Inl (RangeError ''Index out of bounds''), h)
         else (Inr (xs ! nat i),
               write_array h (data tg) (take (nat i) xs @ drop (Suc (nat i)) xs)))"
proof -
  let ?xs = "cells h (data tg)"
  show ?thesis
  proof (cases "i < 0 \<or> i \<ge> int (length ?xs)")
    case True
    then show ?thesis
      by (auto simp: removeAt_def IsLessThan_def Let_def)
  next
    case False
    then have k: "splice_start (Some i) (length ?xs) = nat i" and lt: "nat i < length ?xs"
      by (auto simp: splice_start_def min_def)
    from lt have dc: "min 1 (length ?xs - nat i) = 1" by simp
    from lt have hd: "take 1 (drop (nat i) ?xs) = [?xs ! nat i]"
      by (simp add: take_Suc_conv_app_nth [of 0] hd_drop_conv_nth take_Suc)
    from False k dc hd show ?thesis
      by (simp add: removeAt_def IsLessThan_def splice_def Let_def)
  qed
qed

lemma mutate_other: "data tg \<noteq> a \<Longrightarrow> cells (mutate h tg m) a = cells h a"
  by (cases m)
     (simp_all add: push_def pop_def insertAt_def removeAt_def write_array_def Let_def
        split: sum.splits prod.splits)

lemma mutations_other: "data tg \<noteq> a \<Longrightarrow> cells (mutations h tg ms) a = cells h a"
  unfolding mutations_def
  by (induction ms arbitrary: h) (simp_all add: mutate_other)

subsection \<open>The expected element type\<close>

text \<open>
  C4, as stated: the expected element type of a container built from a non-empty array
  is the runtime type of that array's first element, so pushing another element of this
  type succeeds. It does not: a container built from \<^verbatim>\<open>["a"]\<close> rejects the string
  \<^verbatim>\<open>"b"\<close>.
\<close>

theorem inferred_type_counterexample:
  "constructor emptyHeap (Imm (Arr [Str ''a'']))
     = (Inr \<lparr>data = 0\<rparr>, snd (alloc emptyHeap [Str ''a''])) \<and>
   typeof (Str ''b'') = typeof (Str ''a'') \<and>
   fst (push (snd (alloc emptyHeap [Str ''a''])) \<lparr>data = 0\<rparr> (Str ''b''))
     = Inl (TypeError ''Expected type number, but received string'')"
  by (simp add: constructor_def alloc_def emptyHeap_def push_def typeGuard_def)

text \<open>
  C4, amended. For every container, whatever array it was constructed from, the expected
  element type is fixed in advance to \<^verbatim>\<open>number\<close> and is not inferred from the initial
  array: the constructor does not look at the elements, and pushing a further element
  succeeds exactly when the runtime type of that element is \<^verbatim>\<open>number\<close>.
\<close>

theorem push_expects_number:
  assumes "constructor h initialValues = (Inr tg, h')"
  shows "(fst (push h' tg element) = Inr tg \<longleftrightarrow> typeof element = ''number'') \<and>
         (typeof element = ''number'' \<longrightarrow>
            cells (snd (push h' tg element)) (data tg) = cells h' (data tg) @ [element]) \<and>
         (typeof element \<noteq> ''number'' \<longrightarrow>
            push h' tg element
              = (Inl (TypeError (''Expected type number, but received '' @ typeof element)), h'))"
  by (cases "typeof element = ''number''")
     (simp_all add: push_number push_other write_array_def)

theorem push_expects_number_witness:
  "constructor emptyHeap (Imm (Arr [Str ''a'']))
     = (Inr \<lparr>data = 0\<rparr>, snd (alloc emptyHeap [Str ''a''])) \<and>
   typeof (Num 5) = ''number'' \<and> typeof (Str ''b'') \<noteq> ''number'' \<and>
   fst (push (snd (alloc emptyHeap [Str ''a''])) \<lparr>data = 0\<rparr> (Num 5)) = Inr \<lparr>data = 0\<rparr> \<and>
   cells (snd (push (snd (alloc emptyHeap [Str ''a''])) \<lparr>data = 0\<rparr> (Num 5))) 0
     = [Str ''a'', Num 5] \<and>
   fst (push (snd (alloc emptyHeap [Str ''a''])) \<lparr>data = 0\<rparr> (Str ''b'')) \<noteq> Inr \<lparr>data = 0\<rparr>"
proof -
  have c: "constructor emptyHeap (Imm (Arr [Str ''a'']))
     = (Inr \<lparr>data = 0\<rparr>, snd (alloc emptyHeap [Str ''a'']))"
    by (simp add: constructor_def alloc_def emptyHeap_def)
  have cell: "cells (snd (alloc emptyHeap [Str ''a''])) 0 = [Str ''a'']"
    by (simp add: alloc_def emptyHeap_def)
  show ?thesis
    using c cell push_expects_number [OF c, of "Num 5"] push_expects_number [OF c, of "Str ''b''"]
    by simp
qed

text \<open>
  C6. For every container (each is locked to \<^verbatim>\<open>number\<close>) and every element whose
  runtime type is not \<^verbatim>\<open>number\<close>, \<^verbatim>\<open>push\<close> fails with the type-mismatch error and
  changes nothing: the length and every stored element are as before the call.
\<close>

theorem push_type_mismatch:
  assumes "typeof element \<noteq> ''number''"
  shows "fst (push h tg element)
           = Inl (TypeError (''Expected type number, but received '' @ typeof element)) \<and>
         snd (push h tg element) = h \<and>
         length_tg (snd (push h tg element)) tg = length_tg h tg \<and>
         (\<forall>i. at (snd (push h tg element)) tg i = at h tg i)"
  using assms by (simp add: push_other)

theorem push_type_mismatch_witness:
  "typeof (Str ''x'') \<noteq> ''number'' \<and>
   push heap123 \<lparr>data = 0\<rparr> (Str ''x'')
     = (Inl (TypeError ''Expected type number, but received string''), heap123) \<and>
   length_tg (snd (push heap123 \<lparr>data = 0\<rparr> (Str ''x''))) \<lparr>data = 0\<rparr> = 3"
  using push_type_mismatch [of "Str ''x''" heap123 "\<lparr>data = 0\<rparr>"]
  by (simp add: prod_eq_iff) (simp add: length_tg_def heap123_eq)

subsection \<open>Index bounds\<close>

text \<open>
  C7, as stated: \<^verbatim>\<open>insertAt\<close> accepts exactly the indices \<open>0 \<le> index \<le> n\<close> and
  \<^verbatim>\<open>removeAt\<close> exactly \<open>0 \<le> index < n\<close>. They accept more: NaN, and a call of
  \<^verbatim>\<open>removeAt\<close> without an argument, pass both comparisons of the guard, and the call
  then inserts or removes at position 0.
\<close>

theorem index_bounds_counterexample:
  "fst (insertAt heap123 \<lparr>data = 0\<rparr> NaN (Num 9)) = Inr \<lparr>data = 0\<rparr> \<and>
   cells (snd (insertAt heap123 \<lparr>data = 0\<rparr> NaN (Num 9))) 0 = [Num 9, Num 10, Num 20, Num 30] \<and>
   fst (removeAt heap123 \<lparr>data = 0\<rparr> Missing) = Inr (Num 10) \<and>
   cells (snd (removeAt heap123 \<lparr>data = 0\<rparr> Missing)) 0 = [Num 20, Num 30]"
  by (simp add: heap123_eq insertAt_def removeAt_def IsLessThan_def splice_def
        splice_start_def typeGuard_def write_array_def)

text \<open>
  C7, amended. For every container of length \<open>n\<close> and every integer index,
  \<^verbatim>\<open>insertAt\<close> accepts exactly the indices \<open>0 \<le> index \<le> n\<close> (at \<open>n\<close> it appends) and
  \<^verbatim>\<open>removeAt\<close> exactly \<open>0 \<le> index < n\<close>; outside them the call fails with the range
  error, and a failing call changes nothing. For three elements: \<^verbatim>\<open>insertAt(3, 9)\<close>
  succeeds, \<^verbatim>\<open>insertAt(4, 9)\<close> and \<^verbatim>\<open>removeAt(3)\<close> fail with the range error,
  \<^verbatim>\<open>removeAt(2)\<close> succeeds.
\<close>

theorem index_bounds:
  "(fst (insertAt h tg (Index i) element) = Inl (RangeError ''Index out of bounds'')
      \<longleftrightarrow> \<not> (0 \<le> i \<and> i \<le> int (length_tg h tg))) \<and>
   (typeof element = ''number'' \<longrightarrow>
      (fst (insertAt h tg (Index i) element) = Inr tg
         \<longleftrightarrow> 0 \<le> i \<and> i \<le> int (length_tg h tg))) \<and>
   (typeof element = ''number'' \<longrightarrow>
      insertAt h tg (Index (int (length_tg h tg))) element = push h tg element \<and>
      cells (snd (insertAt h tg (Index (int (length_tg h tg))) element)) (data tg)
        = cells h (data tg) @ [element]) \<and>
   ((\<exists>v. fst (removeAt h tg (Index i)) = Inr v)
      \<longleftrightarrow> 0 \<le> i \<and> i < int (length_tg h tg)) \<and>
   (fst (removeAt h tg (Index i)) = Inl (RangeError ''Index out of bounds'')
      \<longleftrightarrow> \<not> (0 \<le> i \<and> i < int (length_tg h tg))) \<and>
   ((\<exists>e. fst (insertAt h tg index element) = Inl e) \<longrightarrow>
      snd (insertAt h tg index element) = h) \<and>
   ((\<exists>e. fst (removeAt h tg index) = Inl e) \<longrightarrow> snd (removeAt h tg index) = h) \<and>
   (length_tg h tg = 3 \<longrightarrow>
      fst (insertAt h tg (Index 3) (Num 9)) = Inr tg \<and>
      length_tg (snd (insertAt h tg (Index 3) (Num 9))) tg = 4 \<and>
      at (snd (insertAt h tg (Index 3) (Num 9))) tg 3 = Num 9 \<and>
      insertAt h tg (Index 4) (Num 9) = (Inl (RangeError ''Index out of bounds''), h) \<and>
      removeAt h tg (Index 3) = (Inl (RangeError ''Index out of bounds''), h) \<and>
      fst (removeAt h tg (Index 2)) = Inr (at h tg 2) \<and>
      length_tg (snd (removeAt h tg (Index 2))) tg = 2)"
proof -
  have ins_range: "fst (insertAt h tg (Index i) element) = Inl (RangeError ''Index out of bounds'')
      \<longleftrightarrow> \<not> (0 \<le> i \<and> i \<le> int (length_tg h tg))"
    by (auto simp: insertAt_Index length_tg_def typeGuard_def Let_def)
  have ins_ok: "typeof element = ''number'' \<longrightarrow>
      (fst (insertAt h tg (Index i) element) = Inr tg
         \<longleftrightarrow> 0 \<le> i \<and> i \<le> int (length_tg h tg))"
    by (auto simp: insertAt_Index length_tg_def typeGuard_def Let_def)
  have ins_append: "typeof element = ''number'' \<longrightarrow>
      insertAt h tg (Index (int (length_tg h tg))) element = push h tg element \<and>
      cells (snd (insertAt h tg (Index (int (length_tg h tg))) element)) (data tg)
        = cells h (data tg) @ [element]"
    by (simp add: insertAt_Index push_def length_tg_def typeGuard_def write_array_def)
  have rem_ok: "(\<exists>v. fst (removeAt h tg (Index i)) = Inr v)
      \<longleftrightarrow> 0 \<le> i \<and> i < int (length_tg h tg)"
    by (auto simp: removeAt_Index length_tg_def Let_def)
  have rem_range: "fst (removeAt h tg (Index i)) = Inl (RangeError ''Index out of bounds'')
      \<longleftrightarrow> \<not> (0 \<le> i \<and> i < int (length_tg h tg))"
    by (auto simp: removeAt_Index length_tg_def Let_def)
  have ins_frame: "(\<exists>e. fst (insertAt h tg index element) = Inl e) \<longrightarrow>
      snd (insertAt h tg index element) = h"
    by (auto simp: insertAt_def typeGuard_def Let_def)
  have rem_frame: "(\<exists>e. fst (removeAt h tg index) = Inl e) \<longrightarrow> snd (removeAt h tg index) = h"
    by (auto simp: removeAt_def Let_def split: prod.splits)
  have three: "length_tg h tg = 3 \<longrightarrow>
      fst (insertAt h tg (Index 3) (Num 9)) = Inr tg \<and>
      length_tg (snd (insertAt h tg (Index 3) (Num 9))) tg = 4 \<and>
      at (snd (insertAt h tg (Index 3) (Num 9))) tg 3 = Num 9 \<and>
      insertAt h tg (Index 4) (Num 9) = (Inl (RangeError ''Index out of bounds''), h) \<and>
      removeAt h tg (Index 3) = (Inl (RangeError ''Index out of bounds''), h) \<and>
      fst (removeAt h tg (Index 2)) = Inr (at h tg 2) \<and>
      length_tg (snd (removeAt h tg (Index 2))) tg = 2"
    by (simp add: insertAt_Index removeAt_Index at_def length_tg_def typeGuard_def
          write_array_def nth_append Let_def)
  from ins_range ins_ok ins_append rem_ok rem_range ins_frame rem_frame three
  show ?thesis by blast
qed

theorem index_bounds_witness:
  "typeof (Num 9) = ''number'' \<and> length_tg heap123 \<lparr>data = 0\<rparr> = 3 \<and>
   fst (insertAt heap123 \<lparr>data = 0\<rparr> (Index 3) (Num 9)) = Inr \<lparr>data = 0\<rparr> \<and>
   cells (snd (insertAt heap123 \<lparr>data = 0\<rparr> (Index 3) (Num 9))) 0
     = [Num 10, Num 20, Num 30, Num 9] \<and>
   insertAt heap123 \<lparr>data = 0\<rparr> (Index 4) (Num 9)
     = (Inl (RangeError ''Index out of bounds''), heap123) \<and>
   removeAt heap123 \<lparr>data = 0\<rparr> (Index 3)
     = (Inl (RangeError ''Index out of bounds''), heap123) \<and>
   fst (removeAt heap123 \<lparr>data = 0\<rparr> (Index 2)) = Inr (Num 30) \<and>
   length_tg (snd (removeAt heap123 \<lparr>data = 0\<rparr> (Index 2))) \<lparr>data = 0\<rparr> = 2"
proof -
  have len: "length_tg heap123 \<lparr>data = 0\<rparr> = 3"
    by (simp add: length_tg_def heap123_eq)
  have cell: "cells heap123 0 = [Num 10, Num 20, Num 30]"
    by (simp add: heap123_eq)
  have third: "at heap123 \<lparr>data = 0\<rparr> 2 = Num 30"
    by (simp add: at_def heap123_eq)
  show ?thesis
    using index_bounds [of heap123 "\<lparr>data = 0\<rparr>" 3 "Num 9" "Index 3"] len cell third
    by (simp add: push_number write_array_def)
qed

subsection \<open>Removing the last element\<close>

text \<open>
  C9. \<^verbatim>\<open>pop\<close> never fails. On a non-empty container it removes and returns the last
  element; on an empty one it returns \<^verbatim>\<open>undefined\<close>, raises no error and leaves the
  container empty.
\<close>

theorem pop_never_fails:
  "(\<exists>v h'. pop h tg = (Inr v, h')) \<and>
   (length_tg h tg = 0 \<longrightarrow> pop h tg = (Inr Undefined, h)) \<and>
   (0 < length_tg h tg \<longrightarrow>
      fst (pop h tg) = Inr (at h tg (int (length_tg h tg) - 1)) \<and>
      length_tg (snd (pop h tg)) tg = length_tg h tg - 1 \<and>
      cells (snd (pop h tg)) (data tg) = butlast (cells h (data tg)) \<and>
      (\<forall>i. i < int (length_tg h tg) - 1 \<longrightarrow> at (snd (pop h tg)) tg i = at h tg i))"
proof -
  have returns: "\<exists>v h'. pop h tg = (Inr v, h')"
    by (simp add: pop_def Let_def)
  have empty: "length_tg h tg = 0 \<longrightarrow> pop h tg = (Inr Undefined, h)"
    by (simp add: pop_def length_tg_def)
  have nonempty: "fst (pop h tg) = Inr (at h tg (int (length_tg h tg) - 1)) \<and>
      length_tg (snd (pop h tg)) tg = length_tg h tg - 1 \<and>
      cells (snd (pop h tg)) (data tg) = butlast (cells h (data tg)) \<and>
      (\<forall>i. i < int (length_tg h tg) - 1 \<longrightarrow> at (snd (pop h tg)) tg i = at h tg i)"
    if "0 < length_tg h tg"
  proof -
    let ?xs = "cells h (data tg)"
    from that have ne: "?xs \<noteq> []" by (simp add: length_tg_def)
    then have last: "last ?xs = ?xs ! (length ?xs - 1)" by (rule last_conv_nth)
    from ne have idx: "nat (int (length ?xs) - 1) = length ?xs - 1" by simp
    from ne have pos: "0 < length ?xs" by simp
    have keep: "butlast ?xs ! nat i = ?xs ! nat i" if "i < int (length ?xs) - 1" "0 \<le> i" for i
      using that by (simp add: nth_butlast)
    show ?thesis
      using ne last idx pos keep
      by (auto simp: pop_def at_def length_tg_def write_array_def Let_def)
  qed
  from returns empty nonempty show ?thesis by blast
qed

theorem pop_never_fails_witness:
  "length_tg emptyHeap \<lparr>data = 0\<rparr> = 0 \<and>
   pop emptyHeap \<lparr>data = 0\<rparr> = (Inr Undefined, emptyHeap) \<and>
   0 < length_tg heap123 \<lparr>data = 0\<rparr> \<and>
   fst (pop heap123 \<lparr>data = 0\<rparr>) = Inr (Num 30) \<and>
   cells (snd (pop heap123 \<lparr>data = 0\<rparr>)) 0 = [Num 10, Num 20]"
proof -
  have e: "length_tg emptyHeap \<lparr>data = 0\<rparr> = 0"
    by (simp add: length_tg_def emptyHeap_def)
  have len: "length_tg heap123 \<lparr>data = 0\<rparr> = 3"
    by (simp add: length_tg_def heap123_eq)
  have cell: "cells heap123 0 = [Num 10, Num 20, Num 30]"
    by (simp add: heap123_eq)
  have third: "at heap123 \<lparr>data = 0\<rparr> 2 = Num 30"
    by (simp add: at_def heap123_eq)
  show ?thesis
    using pop_never_fails [of emptyHeap "\<lparr>data = 0\<rparr>"] pop_never_fails [of heap123 "\<lparr>data = 0\<rparr>"]
      e len cell third
    by simp
qed

subsection \<open>Copies and aliases\<close>

text \<open>
  C8. \<^verbatim>\<open>clone\<close> returns a new container; right after the call the clone's
  \<^verbatim>\<open>toString()\<close> equals the original's, and no sequence of \<^verbatim>\<open>push\<close>, \<^verbatim>\<open>pop\<close>,
  \<^verbatim>\<open>insertAt\<close>, \<^verbatim>\<open>removeAt\<close> on the clone changes the length or an element of the
  original. The original's array is one that has been allocated.
\<close>

theorem clone_independent:
  assumes "data tg < next_addr h"
  shows "\<exists>c h'. clone h tg = (Inr c, h') \<and> c \<noteq> tg \<and>
           toString h' c = toString h' tg \<and> toString h' tg = toString h tg \<and>
           (\<forall>ms. length_tg (mutations h' c ms) tg = length_tg h tg \<and>
                 (\<forall>i. at (mutations h' c ms) tg i = at h tg i) \<and>
                 cells (mutations h' c ms) (data tg) = cells h (data tg))"
proof -
  let ?c = "\<lparr>data = next_addr h\<rparr>"
  let ?h = "h\<lparr>cells := (cells h)(next_addr h := cells h (data tg)),
             next_addr := Suc (next_addr h)\<rparr>"
  from assms have ne: "data ?c \<noteq> data tg" by simp
  then have same: "cells (mutations ?h ?c ms) (data tg) = cells h (data tg)" for ms
    using assms by (simp add: mutations_other)
  from ne have diff: "?c \<noteq> tg" by auto
  have "toString ?h ?c = toString ?h tg" "toString ?h tg = toString h tg"
    using assms by (simp_all add: toString_def)
  with same diff show ?thesis
    by (simp add: clone_eq length_tg_def at_def)
qed

theorem clone_independent_witness:
  "data \<lparr>data = 0\<rparr> < next_addr heap123 \<and>
   fst (clone heap123 \<lparr>data = 0\<rparr>) = Inr \<lparr>data = 1\<rparr> \<and>
   toString (snd (clone heap123 \<lparr>data = 0\<rparr>)) \<lparr>data = 1\<rparr> = Inr ''[10, 20, 30]'' \<and>
   toString heap123 \<lparr>data = 0\<rparr> = Inr ''[10, 20, 30]'' \<and>
   length_tg (mutations (snd (clone heap123 \<lparr>data = 0\<rparr>)) \<lparr>data = 1\<rparr>
                [Push (Num 40), InsertAt (Index 1) (Num 15), RemoveAt (Index 2), Pop]) \<lparr>data = 0\<rparr> = 3 \<and>
   cells (mutations (snd (clone heap123 \<lparr>data = 0\<rparr>)) \<lparr>data = 1\<rparr>
                [Push (Num 40), InsertAt (Index 1) (Num 15), RemoveAt (Index 2), Pop]) 1
     = [Num 10, Num 15, Num 30]"
proof -
  have alloc: "data \<lparr>data = 0\<rparr> < next_addr heap123"
    by (simp add: heap123_eq)
  have c: "fst (clone heap123 \<lparr>data = 0\<rparr>) = Inr \<lparr>data = 1\<rparr>"
    by (simp add: clone_eq heap123_eq)
  have s: "toString heap123 \<lparr>data = 0\<rparr> = Inr ''[10, 20, 30]''"
    by (simp add: toString_def heap123_eq show_int_def show_nat.simps digit_char_def)
  have len: "length_tg heap123 \<lparr>data = 0\<rparr> = 3"
    by (simp add: length_tg_def heap123_eq)
  have m: "cells (mutations (snd (clone heap123 \<lparr>data = 0\<rparr>)) \<lparr>data = 1\<rparr>
                [Push (Num 40), InsertAt (Index 1) (Num 15), RemoveAt (Index 2), Pop]) 1
     = [Num 10, Num 15, Num 30]"
    by (simp add: clone_eq heap123_eq mutations_def push_def typeGuard_def insertAt_Index
          removeAt_Index pop_def write_array_def)
  from clone_independent [OF alloc] obtain c' h'
    where "clone heap123 \<lparr>data = 0\<rparr> = (Inr c', h')"
      and "toString h' c' = toString h' \<lparr>data = 0\<rparr>"
      and "toString h' \<lparr>data = 0\<rparr> = toString heap123 \<lparr>data = 0\<rparr>"
      and "\<forall>ms. length_tg (mutations h' c' ms) \<lparr>data = 0\<rparr> = length_tg heap123 \<lparr>data = 0\<rparr>"
    by blast
  with alloc c s len m show ?thesis
    by simp
qed

text \<open>
  C10. The constructor keeps the caller's array itself: for an array at address \<open>a\<close>
  passed at construction, what \<^verbatim>\<open>push\<close>, \<^verbatim>\<open>pop\<close>, \<^verbatim>\<open>insertAt\<close> and \<^verbatim>\<open>removeAt\<close> do to
  the container is read back through \<open>a\<close>, and after the caller stores other elements in
  \<open>a\<close> the container's \<^verbatim>\<open>length\<close>, \<^verbatim>\<open>at\<close> and \<^verbatim>\<open>toString\<close> are those of the new
  elements. The array of a clone is another one: neither a store into \<open>a\<close> reaches the
  clone nor a mutation of the clone reaches \<open>a\<close>.
\<close>

theorem constructor_aliases:
  "constructor h (Ref a) = (Inr \<lparr>data = a\<rparr>, h) \<and>
   (typeof element = ''number'' \<longrightarrow>
      cells (snd (push h \<lparr>data = a\<rparr> element)) a = cells h a @ [element]) \<and>
   cells (snd (pop h \<lparr>data = a\<rparr>)) a = butlast (cells h a) \<and>
   (typeof element = ''number'' \<and> 0 \<le> index \<and> index \<le> int (length (cells h a)) \<longrightarrow>
      cells (snd (insertAt h \<lparr>data = a\<rparr> (Index index) element)) a
        = take (nat index) (cells h a) @ element # drop (nat index) (cells h a)) \<and>
   (0 \<le> index \<and> index < int (length (cells h a)) \<longrightarrow>
      cells (snd (removeAt h \<lparr>data = a\<rparr> (Index index))) a
        = take (nat index) (cells h a) @ drop (Suc (nat index)) (cells h a)) \<and>
   length_tg (write_array h a ys) \<lparr>data = a\<rparr> = length ys \<and>
   at (write_array h a ys) \<lparr>data = a\<rparr> index
     = (if 0 \<le> index \<and> index < int (length ys) then ys ! nat index else Undefined) \<and>
   toString (write_array h a ys) \<lparr>data = a\<rparr>
     = (case join_with '', '' ys of Inl e \<Rightarrow> Inl e | Inr s \<Rightarrow> Inr (''['' @ s @ '']'')) \<and>
   (a < next_addr h \<longrightarrow>
      (\<exists>c h'. clone h \<lparr>data = a\<rparr> = (Inr c, h') \<and> data c \<noteq> a \<and>
         cells h' (data c) = cells h a \<and>
         cells (write_array h' a ys) (data c) = cells h a \<and>
         (\<forall>ms. cells (mutations h' c ms) a = cells h a)))"
proof -
  have muts: "typeof element = ''number'' \<longrightarrow>
      cells (snd (push h \<lparr>data = a\<rparr> element)) a = cells h a @ [element]"
    "cells (snd (pop h \<lparr>data = a\<rparr>)) a = butlast (cells h a)"
    "typeof element = ''number'' \<and> 0 \<le> index \<and> index \<le> int (length (cells h a)) \<longrightarrow>
      cells (snd (insertAt h \<lparr>data = a\<rparr> (Index index) element)) a
        = take (nat index) (cells h a) @ element # drop (nat index) (cells h a)"
    "0 \<le> index \<and> index < int (length (cells h a)) \<longrightarrow>
      cells (snd (removeAt h \<lparr>data = a\<rparr> (Index index))) a
        = take (nat index) (cells h a) @ drop (Suc (nat index)) (cells h a)"
    by (simp_all add: push_def pop_def insertAt_Index removeAt_Index typeGuard_def
          write_array_def Let_def)
  have reads: "length_tg (write_array h a ys) \<lparr>data = a\<rparr> = length ys"
    "at (write_array h a ys) \<lparr>data = a\<rparr> index
       = (if 0 \<le> index \<and> index < int (length ys) then ys ! nat index else Undefined)"
    "toString (write_array h a ys) \<lparr>data = a\<rparr>
       = (case join_with '', '' ys of Inl e \<Rightarrow> Inl e | Inr s \<Rightarrow> Inr (''['' @ s @ '']''))"
    by (simp_all add: length_tg_def at_def toString_def write_array_def)
  have copy: "\<exists>c h'. clone h \<lparr>data = a\<rparr> = (Inr c, h') \<and> data c \<noteq> a \<and>
         cells h' (data c) = cells h a \<and>
         cells (write_array h' a ys) (data c) = cells h a \<and>
         (\<forall>ms. cells (mutations h' c ms) a = cells h a)"
    if "a < next_addr h"
    using that by (simp add: clone_eq write_array_def mutations_other)
  from muts reads copy constructor_Ref [of h a] show ?thesis
    by blast
qed

theorem constructor_aliases_witness:
  "constructor heap123 (Ref 0) = (Inr \<lparr>data = 0\<rparr>, heap123) \<and>
   typeof (Num 40) = ''number'' \<and> (0::int) \<le> 1 \<and> (1::int) < int (length (cells heap123 0)) \<and>
   0 < next_addr heap123 \<and>
   cells (snd (push heap123 \<lparr>data = 0\<rparr> (Num 40))) 0 = [Num 10, Num 20, Num 30, Num 40] \<and>
   cells (snd (pop heap123 \<lparr>data = 0\<rparr>)) 0 = [Num 10, Num 20] \<and>
   cells (snd (insertAt heap123 \<lparr>data = 0\<rparr> (Index 1) (Num 40))) 0 = [Num 10, Num 40, Num 20, Num 30] \<and>
   cells (snd (removeAt heap123 \<lparr>data = 0\<rparr> (Index 1))) 0 = [Num 10, Num 30] \<and>
   length_tg (write_array heap123 0 [Num 7]) \<lparr>data = 0\<rparr> = 1 \<and>
   at (write_array heap123 0 [Num 7]) \<lparr>data = 0\<rparr> 1 = Undefined \<and>
   fst (clone heap123 \<lparr>data = 0\<rparr>) = Inr \<lparr>data = 1\<rparr> \<and>
   cells (write_array (snd (clone heap123 \<lparr>data = 0\<rparr>)) 0 [Num 7]) 1
     = [Num 10, Num 20, Num 30]"
proof -
  have cell: "cells heap123 0 = [Num 10, Num 20, Num 30]" and nxt: "next_addr heap123 = 1"
    by (simp_all add: heap123_eq)
  have copy: "clone heap123 \<lparr>data = 0\<rparr>
      = (Inr \<lparr>data = 1\<rparr>,
         heap123\<lparr>cells := (cells heap123)(1 := [Num 10, Num 20, Num 30]), next_addr := 2\<rparr>)"
    by (simp add: clone_eq cell nxt)
  show ?thesis
    using constructor_aliases [of heap123 0 "Num 40" 1 "[Num 7]"] cell nxt copy
    by (simp add: write_array_def)
qed

end
